theory Spec2Isabelle
  imports Main
begin

section \<open>Placeholder binding and value synchronisation of the document editor\<close>

text \<open>
  A shallow embedding of \<^verbatim>\<open>frontend/src/components/Edit.tsx\<close>. Conventions:
  \<^item> a JavaScript string is a \<open>string\<close>; the characters are the code units below 256;
  \<^item> an object used as a dictionary (\<^verbatim>\<open>Record<string, T>\<close>) is a map on its own
    properties; where \<^verbatim>\<open>applyStructuredUpdates\<close> reads \<^verbatim>\<open>next[key]\<close> to decide whether a key
    is known, the read goes through the prototype chain of \<^verbatim>\<open>next\<close> as in JavaScript, so the
    members inherited from \<^verbatim>\<open>Object.prototype\<close> (\<^verbatim>\<open>constructor\<close>, \<^verbatim>\<open>toString\<close>, ...) are
    found there;
  \<^item> \<^verbatim>\<open>undefined\<close> is \<open>None\<close>; a number used as a position is an \<open>int\<close>;
  \<^item> React state is a record that every handler takes and returns; the two state
    updates of one handler are batched into one render, and an effect runs after that
    render with the values the render saw;
  \<^item> what a remote call or the templating engine does in one invocation (it returns, or it
    throws) is an argument of the handler;
  \<^item> toasts are returned as a list; layout flags (drawer, progress bar) are left out.
\<close>

subsection \<open>Strings\<close>

definition is_ws :: "char \<Rightarrow> bool" where
  "is_ws c = (c \<in> set [CHR 0x09, CHR 0x0A, CHR 0x0B, CHR 0x0C, CHR 0x0D, CHR 0x20, CHR 0xA0])"

text \<open>\<^verbatim>\<open>String.prototype.trim\<close>: white space is removed at both ends.\<close>

definition trim :: "string \<Rightarrow> string" where
  "trim s = rev (dropWhile is_ws (rev (dropWhile is_ws s)))"

definition digit :: "nat \<Rightarrow> char" where
  "digit d = ''0123456789'' ! d"

text \<open>\<^verbatim>\<open>String(n)\<close> for a natural number: its decimal digits.\<close>

fun String_num :: "nat \<Rightarrow> string" where
  "String_num n = (if n < 10 then [digit n] else String_num (n div 10) @ [digit (n mod 10)])"

declare String_num.simps [simp del]

text \<open>\<^verbatim>\<open>s.padStart(targetLength, c)\<close> for a one-character pad string.\<close>

definition padStart :: "nat \<Rightarrow> char \<Rightarrow> string \<Rightarrow> string" where
  "padStart targetLength c s = replicate (targetLength - length s) c @ s"

text \<open>The value of a digit string; used to tell fallback names apart.\<close>

definition digit_val :: "char \<Rightarrow> nat" where
  "digit_val c = (of_char c :: nat) - 48"

definition num_of :: "string \<Rightarrow> nat" where
  "num_of s = foldl (\<lambda>a c. 10 * a + digit_val c) 0 s"

definition lower_ascii :: "char \<Rightarrow> char" where
  "lower_ascii c = (let n = (of_char c :: nat) in if 65 \<le> n \<and> n \<le> 90 then char_of (n + 32) else c)"

subsection \<open>Data\<close>

definition DELIMS_start :: string where
  "DELIMS_start = ''[''"

definition DELIMS_end :: string where
  "DELIMS_end = '']''"

text \<open>\<^verbatim>\<open>type Placeholder = { name; description; value }\<close>. An entry of the store always
  has a value; its name or description is \<open>None\<close> when the object has no such property,
  as the object \<^verbatim>\<open>{ ...next[key], value }\<close> built from something that is not a placeholder.\<close>

record placeholder =
  name :: "string option"
  description :: "string option"
  val :: string

text \<open>\<^verbatim>\<open>type StructuredUpdate = { name?: string; order?: number; value: string }\<close>;
  the value is read as \<^verbatim>\<open>u.value ?? ""\<close>, so it may be missing as well.\<close>

record structured_update =
  u_name :: "string option"
  u_order :: "int option"
  u_value :: "string option"

text \<open>One entry of \<^verbatim>\<open>UploadFileResponse.placeholders\<close>.\<close>

record api_placeholder =
  api_order :: int
  api_name :: string
  api_description :: string

record upload_response =
  document_id :: string
  filename :: string
  message :: string
  api_placeholders :: "api_placeholder list"

record upload_file =
  file_name :: string
  file_bytes :: "string list"

text \<open>A thrown value: \<^verbatim>\<open>e instanceof Error ? e.message : fallback\<close>.\<close>

datatype thrown = ErrorObject string | OtherValue

fun message_or :: "thrown \<Rightarrow> string \<Rightarrow> string" where
  "message_or (ErrorObject m) fallback = m"
| "message_or OtherValue fallback = fallback"

datatype 'a attempt = Threw thrown | Resolved 'a

datatype toast =
  ToastError string string
| ToastSuccess string string
| ToastInfo string string

text \<open>What the preview container shows; \<open>Blank\<close> is \<^verbatim>\<open>innerHTML = ""\<close>.\<close>

datatype view = Blank | Shown "string list"

text \<open>What \<^verbatim>\<open>renderAsync\<close> of the preview library does: it paints the document, or it
  rejects and leaves something in the container.\<close>

datatype paint = Painted | PaintFailed thrown view

text \<open>The state of \<^verbatim>\<open>DocPlaceholderEditor\<close>. A document buffer is the list of its text
  runs; \<open>previewRef\<close> is \<open>None\<close> while the preview container is not mounted (mounting
  it belongs to rendering and is not modelled).\<close>

record editor =
  placeholders :: "string \<rightharpoonup> placeholder"
  fileName :: "string option"
  templateBuffer :: "string list option"
  previewRef :: "view option"
  orderedNames :: "string list"
  documentId :: "string option"
  draftValues :: "string \<rightharpoonup> string"
  openaiApiKey :: string
  apiKeyDialogOpen :: bool

subsection \<open>The templating engine\<close>

text \<open>
  Modelled from the spec: the templating engine (the docxtemplater library, not part of
  the repository), "treated as a black-box templating engine capability". A document is
  read as a stream of runs in order of appearance; a run that is one text enclosed in the
  delimiter pair is a placeholder token, any other run is plain text. Rendering walks
  the stream front to back; for each token it asks the configured \<^verbatim>\<open>parser(tag).get\<close> once
  and writes the value it returns, or, when that is undefined, what the configured
  \<^verbatim>\<open>nullGetter\<close> returns for the part object the engine hands to it. How the engine
  describes a token to \<^verbatim>\<open>nullGetter\<close> is the parameter \<open>describe\<close>.
\<close>

datatype part = Text string | Tag string

record engine_part =
  part_value :: string
  tag :: "string option"

definition delimiter_free :: "string \<Rightarrow> bool" where
  "delimiter_free s = (CHR ''['' \<notin> set s \<and> CHR '']'' \<notin> set s)"

definition parse_run :: "string \<Rightarrow> part" where
  "parse_run s =
     (case s of
        [] \<Rightarrow> Text s
      | c # rest \<Rightarrow>
          if [c] = DELIMS_start \<and> rest \<noteq> [] \<and> [last rest] = DELIMS_end \<and> delimiter_free (butlast rest)
          then Tag (butlast rest) else Text s)"

fun render :: "(string \<Rightarrow> engine_part option) \<Rightarrow> (string \<Rightarrow> 's \<Rightarrow> string option \<times> 's) \<Rightarrow>
    (engine_part option \<Rightarrow> string) \<Rightarrow> string list \<Rightarrow> 's \<Rightarrow> string list" where
  "render describe getter nullGetter [] s = []"
| "render describe getter nullGetter (r # rs) s =
     (case parse_run r of
        Text x \<Rightarrow> x # render describe getter nullGetter rs s
      | Tag t \<Rightarrow>
          (case getter t s of
             (v, s') \<Rightarrow>
               (case v of Some x \<Rightarrow> x | None \<Rightarrow> nullGetter (describe t))
                 # render describe getter nullGetter rs s'))"

text \<open>Modelled from the spec: \<^verbatim>\<open>InspectModule.getAllTags\<close> of the engine, the tags of a
  document; its keys are the tag names, each once.\<close>

fun tags_of :: "string list \<Rightarrow> string list" where
  "tags_of [] = []"
| "tags_of (r # rs) = (case parse_run r of Text x \<Rightarrow> tags_of rs | Tag t \<Rightarrow> t # tags_of rs)"

definition getAllTags :: "string list \<Rightarrow> string list" where
  "getAllTags doc = remdups (tags_of doc)"

subsection \<open>Binding by occurrence\<close>

text \<open>The \<^verbatim>\<open>nullGetter\<close> all three engine configurations share:
  \<^verbatim>\<open>const t = part?.tag ?? ""; return `${DELIMS.start}${t}${DELIMS.end}`\<close>.\<close>

definition nullGetter :: "engine_part option \<Rightarrow> string" where
  "nullGetter p =
     (let t = (case p of None \<Rightarrow> [] | Some q \<Rightarrow> (case tag q of None \<Rightarrow> [] | Some x \<Rightarrow> x))
      in DELIMS_start @ t @ DELIMS_end)"

text \<open>The \<^verbatim>\<open>get\<close> of \<^verbatim>\<open>renameDocxByOccurrence\<close>; the counter \<open>idx\<close> is the state.\<close>

definition get_next :: "string list \<Rightarrow> string \<Rightarrow> nat \<Rightarrow> string option \<times> nat" where
  "get_next orderedNewNames t idx =
     (let nxt = (if idx < length orderedNewNames then orderedNewNames ! idx
                 else ''placeholder_'' @ padStart 3 (CHR ''0'') (String_num (idx + 1)))
      in (Some (DELIMS_start @ nxt @ DELIMS_end), idx + 1))"

definition renameDocxByOccurrence ::
    "(string \<Rightarrow> engine_part option) \<Rightarrow> string list \<Rightarrow> string list \<Rightarrow> string list" where
  "renameDocxByOccurrence describe arrayBuffer orderedNewNames =
     render describe (get_next orderedNewNames) nullGetter arrayBuffer 0"

subsection \<open>Upload\<close>

definition descByName :: "api_placeholder list \<Rightarrow> (string \<rightharpoonup> string)" where
  "descByName phFromAPI = fold (\<lambda>s m. m(api_name s \<mapsto> api_description s)) phFromAPI Map.empty"

definition extracted_of :: "(string \<rightharpoonup> string) \<Rightarrow> string list \<Rightarrow> (string \<rightharpoonup> placeholder)" where
  "extracted_of descs keys =
     fold (\<lambda>key extracted. extracted(key \<mapsto>
        \<lparr>name = Some key, description = Some (case descs key of None \<Rightarrow> [] | Some d \<Rightarrow> d), val = []\<rparr>))
       keys Map.empty"

definition seedDrafts :: "(string \<rightharpoonup> placeholder) \<Rightarrow> (string \<rightharpoonup> string)" where
  "seedDrafts extracted = (\<lambda>k. map_option val (extracted k))"

text \<open>The part of \<^verbatim>\<open>handleFileUpload\<close> after the service has answered with \<open>res\<close>;
  \<open>renameFault\<close> is what the engine throws in \<^verbatim>\<open>renameDocxByOccurrence\<close>, \<open>inspectFault\<close>
  what it throws while the renamed document is inspected, if anything.\<close>

definition uploadAnswered ::
    "(string \<Rightarrow> engine_part option) \<Rightarrow> editor \<Rightarrow> string list \<Rightarrow> upload_response \<Rightarrow>
     thrown option \<Rightarrow> thrown option \<Rightarrow> editor \<times> toast list" where
  "uploadAnswered describe st originalArrayBuffer res renameFault inspectFault =
     (let phFromAPI = api_placeholders res;
          st1 = st\<lparr>documentId := Some (document_id res)\<rparr>;
          orderedNewNames = map api_name phFromAPI;
          st2 = st1\<lparr>orderedNames := orderedNewNames\<rparr>
      in case renameFault of
           Some e \<Rightarrow> (st2, [ToastError ''Upload failed'' (message_or e ''Failed to upload file'')])
         | None \<Rightarrow>
            (let renamedBuffer = renameDocxByOccurrence describe originalArrayBuffer orderedNewNames;
                 st3 = st2\<lparr>templateBuffer := Some renamedBuffer\<rparr>
             in case inspectFault of
                  Some e \<Rightarrow> (st3, [ToastError ''Upload failed'' (message_or e ''Failed to upload file'')])
                | None \<Rightarrow>
                   (let extracted = extracted_of (descByName phFromAPI) (getAllTags renamedBuffer)
                    in (st3\<lparr>placeholders := extracted,
                             draftValues := seedDrafts extracted\<rparr>,
                        [ToastSuccess ''File uploaded successfully!''
                           (''Found '' @ String_num (length (getAllTags renamedBuffer)) @ '' placeholder(s)'')]))))"

definition handleFileUpload ::
    "(string \<Rightarrow> engine_part option) \<Rightarrow> editor \<Rightarrow> upload_file list \<Rightarrow>
     upload_response attempt \<Rightarrow> upload_response attempt \<Rightarrow> thrown option \<Rightarrow> thrown option \<Rightarrow>
     editor \<times> toast list" where
  "handleFileUpload describe st files first second renameFault inspectFault =
     (case files of
        [] \<Rightarrow> (st, [])
      | file # others \<Rightarrow>
          if openaiApiKey st = [] then (st\<lparr>apiKeyDialogOpen := True\<rparr>, [])
          else
            (let st0 = st\<lparr>fileName := Some (file_name file)\<rparr>;
                 slow = ToastInfo ''Looks like server is down due to free tier usage.''
                          ''This may take up to 1 minute on first upload. Please wait.''
             in case first of
                  Resolved res \<Rightarrow> uploadAnswered describe st0 (file_bytes file) res renameFault inspectFault
                | Threw e1 \<Rightarrow>
                    (case second of
                       Resolved res \<Rightarrow>
                         (case uploadAnswered describe st0 (file_bytes file) res renameFault inspectFault of
                            (st', ts) \<Rightarrow> (st', slow # ts))
                     | Threw e2 \<Rightarrow>
                         (st0, [slow, ToastError ''Upload failed'' (message_or e2 ''Failed to upload file'')]))))"

subsection \<open>Document materializer\<close>

text \<open>The \<open>data\<close> object of \<^verbatim>\<open>generateFilledArrayBuffer\<close> (preview).\<close>

definition previewData :: "(string \<rightharpoonup> placeholder) \<Rightarrow> (string \<rightharpoonup> string)" where
  "previewData phs =
     (\<lambda>t. case phs t of
        None \<Rightarrow> None
      | Some ph \<Rightarrow> Some (if trim (val ph) \<noteq> [] then val ph else DELIMS_start @ t @ DELIMS_end))"

text \<open>The \<open>data\<close> object of \<^verbatim>\<open>handleDownload\<close> (export).\<close>

definition downloadData :: "(string \<rightharpoonup> placeholder) \<Rightarrow> (string \<rightharpoonup> string)" where
  "downloadData phs =
     (\<lambda>t. case phs t of
        None \<Rightarrow> None
      | Some ph \<Rightarrow> if trim (val ph) \<noteq> [] then Some (val ph) else None)"

text \<open>\<^verbatim>\<open>parser(tag) { return { get(scope) { return scope[tag]; } }; }\<close>\<close>

definition scopeGet :: "(string \<rightharpoonup> string) \<Rightarrow> string \<Rightarrow> unit \<Rightarrow> string option \<times> unit" where
  "scopeGet scope t s = (scope t, s)"

text \<open>What the engine, configured as in both paths, writes for one tag.\<close>

definition substitution :: "(string \<Rightarrow> engine_part option) \<Rightarrow> (string \<rightharpoonup> string) \<Rightarrow> string \<Rightarrow> string" where
  "substitution describe scope t =
     (case fst (scopeGet scope t ()) of Some x \<Rightarrow> x | None \<Rightarrow> nullGetter (describe t))"

definition generateFilledArrayBuffer ::
    "(string \<Rightarrow> engine_part option) \<Rightarrow> editor \<Rightarrow> thrown option \<Rightarrow> string list option \<times> toast list" where
  "generateFilledArrayBuffer describe st engineFault =
     (case templateBuffer st of
        None \<Rightarrow> (None, [])
      | Some buf \<Rightarrow>
          (case engineFault of
             Some e \<Rightarrow> (None, [ToastError ''Preview error'' (message_or e ''Failed to generate preview'')])
           | None \<Rightarrow> (Some (render describe (scopeGet (previewData (placeholders st))) nullGetter buf ()), [])))"

text \<open>The preview effect, \<^verbatim>\<open>useEffect(..., [templateBuffer, placeholders])\<close>.\<close>

definition previewEffect ::
    "(string \<Rightarrow> engine_part option) \<Rightarrow> editor \<Rightarrow> thrown option \<Rightarrow> paint \<Rightarrow> editor \<times> toast list" where
  "previewEffect describe st engineFault painting =
     (if previewRef st = None \<or> templateBuffer st = None then (st, [])
      else
        (let st1 = st\<lparr>previewRef := Some Blank\<rparr>
         in case generateFilledArrayBuffer describe st1 engineFault of
              (None, ts) \<Rightarrow> (st1, ts)
            | (Some filled, ts) \<Rightarrow>
                (case painting of
                   Painted \<Rightarrow> (st1\<lparr>previewRef := Some (Shown filled)\<rparr>, ts)
                 | PaintFailed e left \<Rightarrow>
                     (st1\<lparr>previewRef := Some left\<rparr>,
                      ts @ [ToastError ''Preview render error'' (message_or e ''Failed to render preview'')]))))"

text \<open>\<^verbatim>\<open>fileName ? fileName.replace(/\.docx$/i, "-filled.docx") : "document-filled.docx"\<close>\<close>

definition filledName :: "string option \<Rightarrow> string" where
  "filledName fn =
     (case fn of
        None \<Rightarrow> ''document-filled.docx''
      | Some f \<Rightarrow>
          if f = [] then ''document-filled.docx''
          else if 5 \<le> length f \<and> map lower_ascii (drop (length f - 5) f) = ''.docx''
          then take (length f - 5) f @ ''-filled.docx'' else f)"

text \<open>\<^verbatim>\<open>handleDownload\<close>: the saved file (name and content) and the toasts. The engine is
  built outside the \<^verbatim>\<open>try\<close>, so what it throws there leaves the handler (\<open>Inl\<close>).\<close>

definition handleDownload ::
    "(string \<Rightarrow> engine_part option) \<Rightarrow> editor \<Rightarrow> thrown option \<Rightarrow> thrown option \<Rightarrow>
     thrown + ((string \<times> string list) option \<times> toast list)" where
  "handleDownload describe st compileFault renderFault =
     (case templateBuffer st of
        None \<Rightarrow> Inr (None, [])
      | Some buf \<Rightarrow>
          (case compileFault of
             Some e \<Rightarrow> Inl e
           | None \<Rightarrow>
               (case renderFault of
                  Some e \<Rightarrow> Inr (None, [ToastError ''Download failed'' (message_or e ''Failed to generate document'')])
                | None \<Rightarrow>
                    Inr (Some (filledName (fileName st),
                               render describe (scopeGet (downloadData (placeholders st))) nullGetter buf ()),
                         [ToastSuccess ''Document downloaded'' ''Your completed document has been downloaded'']))))"

subsection \<open>Update protocol adapter\<close>

text \<open>\<^verbatim>\<open>!key\<close>: the key is undefined or the empty string.\<close>

definition falsy :: "string option \<Rightarrow> bool" where
  "falsy key = (key = None \<or> key = Some [])"

text \<open>The key of an update record, as both \<^verbatim>\<open>applyStructuredUpdates\<close> and
  \<^verbatim>\<open>onChatResponse\<close> compute it.\<close>

definition resolveKey :: "string list \<Rightarrow> structured_update \<Rightarrow> string option" where
  "resolveKey names u =
     (let key = map_option trim (u_name u)
      in if falsy key then
           (case u_order u of
              None \<Rightarrow> key
            | Some order \<Rightarrow>
                (let idx = order - 1
                 in if idx \<ge> 0 \<and> idx < int (length names) then Some (names ! nat idx) else key))
         else key)"

definition value_or_empty :: "structured_update \<Rightarrow> string" where
  "value_or_empty u = (case u_value u of None \<Rightarrow> [] | Some v \<Rightarrow> v)"

text \<open>
  The object \<^verbatim>\<open>next = { ...prev }\<close> of \<^verbatim>\<open>applyStructuredUpdates\<close> is a pair: its own
  properties, and its prototype, which is \<^verbatim>\<open>Object.prototype\<close> (\<open>None\<close>) until an assignment
  to \<^verbatim>\<open>next["__proto__"]\<close> replaces it by an object \<^verbatim>\<open>{ value }\<close> (\<open>Some\<close> of the value).
  The function-valued members of \<^verbatim>\<open>Object.prototype\<close>:
\<close>

definition inheritedFunctions :: "string list" where
  "inheritedFunctions =
     [''constructor'', ''__defineGetter__'', ''__defineSetter__'', ''hasOwnProperty'',
      ''__lookupGetter__'', ''__lookupSetter__'', ''isPrototypeOf'', ''propertyIsEnumerable'',
      ''toString'', ''valueOf'', ''toLocaleString'']"

text \<open>What \<^verbatim>\<open>next[key]\<close> evaluates to.\<close>

datatype looked =
  Own placeholder
| PrototypeObject "string option"
| InheritedText string
| InheritedFunction
| Undefined

definition readNext :: "(string \<rightharpoonup> placeholder) \<times> string option \<Rightarrow> string \<Rightarrow> looked" where
  "readNext nxt key =
     (case fst nxt key of
        Some ph \<Rightarrow> Own ph
      | None \<Rightarrow>
          if key = ''__proto__'' then PrototypeObject (snd nxt)
          else if key = ''value'' \<and> snd nxt \<noteq> None then InheritedText (the (snd nxt))
          else if key \<in> set inheritedFunctions then InheritedFunction
          else Undefined)"

text \<open>\<^verbatim>\<open>!x\<close> is false for an object or a function, and for a string that is not empty.\<close>

fun truthy :: "looked \<Rightarrow> bool" where
  "truthy (Own ph) = True"
| "truthy (PrototypeObject v) = True"
| "truthy (InheritedText t) = (t \<noteq> [])"
| "truthy InheritedFunction = True"
| "truthy Undefined = False"

text \<open>\<^verbatim>\<open>{ ...x, value: v }\<close>: a placeholder keeps its name and description; a function, the
  prototype object or a string has neither (the indexed characters that spreading a
  string yields are read nowhere and are left out).\<close>

fun spreadValue :: "looked \<Rightarrow> string \<Rightarrow> placeholder" where
  "spreadValue (Own ph) v = ph\<lparr>val := v\<rparr>"
| "spreadValue x v = \<lparr>name = None, description = None, val = v\<rparr>"

text \<open>\<^verbatim>\<open>next[key] = obj\<close>: under the key \<^verbatim>\<open>__proto__\<close>, when it is not an own property, the
  inherited setter replaces the prototype; any other assignment sets an own property.\<close>

definition assignNext ::
    "(string \<rightharpoonup> placeholder) \<times> string option \<Rightarrow> string \<Rightarrow> placeholder \<Rightarrow>
     (string \<rightharpoonup> placeholder) \<times> string option" where
  "assignNext nxt key obj =
     (if key = ''__proto__'' \<and> fst nxt key = None then (fst nxt, Some (val obj))
      else ((fst nxt)(key \<mapsto> obj), snd nxt))"

text \<open>The body of \<^verbatim>\<open>updates.forEach\<close> in \<^verbatim>\<open>applyStructuredUpdates\<close>:
  \<^verbatim>\<open>if (!key || !next[key]) return; next[key] = { ...next[key], value: u.value ?? "" }\<close>.\<close>

definition applyUpdate ::
    "string list \<Rightarrow> structured_update \<Rightarrow> (string \<rightharpoonup> placeholder) \<times> string option \<Rightarrow>
     (string \<rightharpoonup> placeholder) \<times> string option" where
  "applyUpdate names u nxt =
     (let key = resolveKey names u
      in if falsy key \<or> \<not> truthy (readNext nxt (the key)) then nxt
         else assignNext nxt (the key) (spreadValue (readNext nxt (the key)) (value_or_empty u)))"

text \<open>\<^verbatim>\<open>applyStructuredUpdates\<close>: the new store is the own properties of \<^verbatim>\<open>next\<close>. (A prototype
  that a \<^verbatim>\<open>__proto__\<close> record left on that object is not kept in the state; the next
  \<^verbatim>\<open>{ ...prev }\<close> does not copy it.)\<close>

definition applyStructuredUpdates ::
    "string list \<Rightarrow> (string \<rightharpoonup> placeholder) \<Rightarrow> structured_update list \<Rightarrow> (string \<rightharpoonup> placeholder)" where
  "applyStructuredUpdates names prev updates =
     (if updates = [] then prev else fst (fold (applyUpdate names) updates (prev, None)))"

subsection \<open>Draft reconciler\<close>

definition onDraftChange :: "editor \<Rightarrow> string \<Rightarrow> string \<Rightarrow> editor" where
  "onDraftChange st nm v = st\<lparr>draftValues := (draftValues st)(nm \<mapsto> v)\<rparr>"

definition isDirty :: "editor \<Rightarrow> string \<Rightarrow> bool" where
  "isDirty st nm =
     ((case draftValues st nm of None \<Rightarrow> [] | Some d \<Rightarrow> d)
        \<noteq> (case placeholders st nm of None \<Rightarrow> [] | Some ph \<Rightarrow> val ph))"

text \<open>The updater of the reconciling effect. \<open>st\<close> is the render the effect belongs to
  (its \<open>placeholders\<close> and, through \<open>isDirty\<close>, its \<open>draftValues\<close>); \<open>prev\<close> is the draft map
  the updater receives. Each key of \<open>placeholders\<close> is visited once.\<close>

definition reconcileDrafts :: "editor \<Rightarrow> (string \<rightharpoonup> string) \<Rightarrow> (string \<rightharpoonup> string)" where
  "reconcileDrafts st prev =
     (\<lambda>k. case placeholders st k of
        None \<Rightarrow> prev k
      | Some ph \<Rightarrow> if prev k = None \<or> \<not> isDirty st k then Some (val ph) else prev k)"

text \<open>The reconciling effect, \<^verbatim>\<open>useEffect(..., [placeholders])\<close>, run after a render
  in which \<open>placeholders\<close> is a new object.\<close>

definition draftEffect :: "editor \<Rightarrow> editor" where
  "draftEffect st = st\<lparr>draftValues := reconcileDrafts st (draftValues st)\<rparr>"

text \<open>The body of \<^verbatim>\<open>response.updates.forEach\<close> in \<^verbatim>\<open>onChatResponse\<close>.\<close>

definition reflectUpdate ::
    "string list \<Rightarrow> structured_update \<Rightarrow> (string \<rightharpoonup> string) \<Rightarrow> (string \<rightharpoonup> string)" where
  "reflectUpdate names u nxt =
     (let k = resolveKey names u
      in if falsy k then nxt else nxt(the k \<mapsto> value_or_empty u))"

definition onChatResponse :: "editor \<Rightarrow> structured_update list \<Rightarrow> editor" where
  "onChatResponse st updates =
     st\<lparr>placeholders := applyStructuredUpdates (orderedNames st) (placeholders st) updates,
        draftValues := fold (reflectUpdate (orderedNames st)) updates (draftValues st)\<rparr>"

text \<open>An agent push as the component goes through it: the callback, then the
  reconciling effect when \<open>placeholders\<close> was replaced (a non-empty batch).\<close>

definition agentPush :: "editor \<Rightarrow> structured_update list \<Rightarrow> editor" where
  "agentPush st updates =
     (if updates = [] then onChatResponse st updates else draftEffect (onChatResponse st updates))"




subsection \<open>Auxiliary notions for the statements\<close>

text \<open>A record resolves to a name when its key is that name and is not empty.\<close>

definition resolves :: "string list \<Rightarrow> structured_update \<Rightarrow> string \<Rightarrow> bool" where
  "resolves names u k = (resolveKey names u = Some k \<and> k \<noteq> [])"

text \<open>The value of the last record of a batch that resolves to a name.\<close>

fun lastValueFor :: "string list \<Rightarrow> structured_update list \<Rightarrow> string \<Rightarrow> string option" where
  "lastValueFor names [] k = None"
| "lastValueFor names (u # us) k =
     (case lastValueFor names us k of
        Some v \<Rightarrow> Some v
      | None \<Rightarrow> if resolves names u k then Some (value_or_empty u) else None)"

text \<open>A run is a placeholder token when the engine reads it as a tag.\<close>

definition is_token :: "string \<Rightarrow> bool" where
  "is_token r = (case parse_run r of Text x \<Rightarrow> False | Tag t \<Rightarrow> True)"

text \<open>The occurrence index (from 0) of the run at position \<open>j\<close>: the number of tokens
  before it.\<close>

definition occurrence :: "string list \<Rightarrow> nat \<Rightarrow> nat" where
  "occurrence doc j = length (filter is_token (take j doc))"

text \<open>The name that the token with occurrence index \<open>i\<close> is bound to.\<close>

definition boundName :: "string list \<Rightarrow> nat \<Rightarrow> string" where
  "boundName names i =
     (if i < length names then names ! i
      else ''placeholder_'' @ padStart 3 (CHR ''0'') (String_num (i + 1)))"

text \<open>Two runs at the same position of two documents that differ at most in the raw text
  of a token.\<close>

definition same_shape :: "string \<Rightarrow> string \<Rightarrow> bool" where
  "same_shape r1 r2 = (is_token r1 = is_token r2 \<and> (\<not> is_token r1 \<longrightarrow> r1 = r2))"

text \<open>Modelled from the spec: the part object of the templating engine, which is not in
  the repository. The spec has the engine's "missing value" fallback produce "the
  re-wrapped tag", that is, the part handed to \<^verbatim>\<open>nullGetter\<close> carries the token's text
  in its \<^verbatim>\<open>tag\<close> field.\<close>

definition describe_tag :: "string \<Rightarrow> engine_part option" where
  "describe_tag t = Some \<lparr>part_value = t, tag = Some t\<rparr>"

text \<open>The part object that the docxtemplater library hands to \<^verbatim>\<open>nullGetter\<close> for a
  placeholder: it names the token in its \<^verbatim>\<open>value\<close> property and has no \<^verbatim>\<open>tag\<close> property.\<close>

definition describe_value :: "string \<Rightarrow> engine_part option" where
  "describe_value t = Some \<lparr>part_value = t, tag = None\<rparr>"

text \<open>The initial state of the component (the arguments of its \<^verbatim>\<open>useState\<close> calls), with
  an API key entered.\<close>

definition initial :: "string \<Rightarrow> editor" where
  "initial apiKey =
     \<lparr>placeholders = Map.empty, fileName = None, templateBuffer = None, previewRef = None,
      orderedNames = [], documentId = None, draftValues = Map.empty,
      openaiApiKey = apiKey, apiKeyDialogOpen = False\<rparr>"





text \<open>The state after uploading a document with the single token \<^verbatim>\<open>[X]\<close>, for which the
  service returns the one name \<open>nm\<close>.\<close>

definition example_upload :: "string \<Rightarrow> editor" where
  "example_upload nm =
     fst (handleFileUpload describe_tag (initial ''sk-1'')
       [\<lparr>file_name = ''t.docx'', file_bytes = [''[X]'']\<rparr>]
       (Resolved \<lparr>document_id = ''d1'', filename = ''t.docx'', message = ''ok'',
                  api_placeholders = [\<lparr>api_order = 1, api_name = nm, api_description = []\<rparr>]\<rparr>)
       (Threw OtherValue) None None)"

text \<open>An editor that shows a rendered preview of a template.\<close>

definition viewing :: editor where
  "viewing = (initial ''sk-1'')\<lparr>templateBuffer := Some [''Dear '', ''[a]''],
                                previewRef := Some (Shown [''Dear '', ''[a]''])\<rparr>"




section \<open>Properties\<close>

subsection \<open>Batches pointwise\<close>

lemma applyUpdate_own:
  assumes "fst nxt k = Some ph"
  shows "fst (applyUpdate names u nxt) k
           = Some (if resolves names u k then ph\<lparr>val := value_or_empty u\<rparr> else ph)"
proof (cases "falsy (resolveKey names u)")
  case True
  then show ?thesis
    using assms by (auto simp: applyUpdate_def resolves_def falsy_def)
next
  case False
  then obtain key where key: "resolveKey names u = Some key" "key \<noteq> []"
    by (auto simp: falsy_def)
  show ?thesis
  proof (cases "key = k")
    case True
    then show ?thesis
      using assms key
      by (simp add: applyUpdate_def falsy_def resolves_def readNext_def assignNext_def)
  next
    case False
    then have "\<not> resolves names u k" using key by (simp add: resolves_def)
    moreover have "fst (applyUpdate names u nxt) k = fst nxt k"
      using False key by (simp add: applyUpdate_def falsy_def assignNext_def Let_def)
    ultimately show ?thesis using assms by simp
  qed
qed

lemma fold_applyUpdate_own:
  "fst nxt k = Some ph \<Longrightarrow>
   fst (fold (applyUpdate names) us nxt) k
     = Some (case lastValueFor names us k of None \<Rightarrow> ph | Some v \<Rightarrow> ph\<lparr>val := v\<rparr>)"
proof (induction us arbitrary: nxt ph)
  case Nil
  then show ?case by simp
next
  case (Cons u us)
  let ?ph = "if resolves names u k then ph\<lparr>val := value_or_empty u\<rparr> else ph"
  have step: "fst (applyUpdate names u nxt) k = Some ?ph"
    using Cons.prems by (rule applyUpdate_own)
  have "fst (fold (applyUpdate names) (u # us) nxt) k
      = fst (fold (applyUpdate names) us (applyUpdate names u nxt)) k"
    by simp
  also have "\<dots> = Some (case lastValueFor names us k of None \<Rightarrow> ?ph | Some v \<Rightarrow> ?ph\<lparr>val := v\<rparr>)"
    using step by (rule Cons.IH)
  also have "\<dots> = Some (case lastValueFor names (u # us) k of None \<Rightarrow> ph | Some v \<Rightarrow> ph\<lparr>val := v\<rparr>)"
    by (simp split: option.splits)
  finally show ?case .
qed

text \<open>On the keys of the store a batch does what the records say: the entry keeps its
  name and description and gets the value of the last record that resolves to it.\<close>

lemma applyStructuredUpdates_own:
  assumes "P k = Some ph"
  shows "applyStructuredUpdates names P us k
           = Some (case lastValueFor names us k of None \<Rightarrow> ph | Some v \<Rightarrow> ph\<lparr>val := v\<rparr>)"
proof (cases "us = []")
  case True
  then show ?thesis using assms by (simp add: applyStructuredUpdates_def)
next
  case False
  have "fst (P, None :: string option) k = Some ph" using assms by simp
  then have "fst (fold (applyUpdate names) us (P, None)) k
      = Some (case lastValueFor names us k of None \<Rightarrow> ph | Some v \<Rightarrow> ph\<lparr>val := v\<rparr>)"
    by (rule fold_applyUpdate_own)
  with False show ?thesis by (simp add: applyStructuredUpdates_def)
qed

text \<open>A batch of one record, on every key.\<close>

lemma applyStructuredUpdates_single:
  "applyStructuredUpdates names P [u] k =
     (case P k of
        Some ph \<Rightarrow> Some (if resolves names u k then ph\<lparr>val := value_or_empty u\<rparr> else ph)
      | None \<Rightarrow>
          if resolves names u k \<and> k \<in> set inheritedFunctions
          then Some \<lparr>name = None, description = None, val = value_or_empty u\<rparr> else None)"
proof (cases "P k")
  case (Some ph)
  then show ?thesis
    using applyStructuredUpdates_own[of P k ph names "[u]"] by simp
next
  case None
  have nf: "''__proto__'' \<notin> set inheritedFunctions" "''value'' \<notin> set inheritedFunctions"
    by (simp_all add: inheritedFunctions_def)
  show ?thesis
  proof (cases "falsy (resolveKey names u)")
    case True
    then show ?thesis
      using None by (auto simp: applyStructuredUpdates_def applyUpdate_def resolves_def falsy_def)
  next
    case False
    then obtain key where key: "resolveKey names u = Some key" "key \<noteq> []"
      by (auto simp: falsy_def)
    show ?thesis
    proof (cases "key = k")
      case True
      then show ?thesis
        using None key nf
        by (auto simp: applyStructuredUpdates_def applyUpdate_def falsy_def resolves_def readNext_def
            assignNext_def Let_def)
    next
      case False
      then have "fst (applyUpdate names u (P, None)) k = P k"
        using key by (simp add: applyUpdate_def falsy_def assignNext_def Let_def)
      then show ?thesis
        using None False key by (simp add: applyStructuredUpdates_def resolves_def)
    qed
  qed
qed

lemma reflectUpdate_apply:
  "reflectUpdate names u D k = (if resolves names u k then Some (value_or_empty u) else D k)"
  by (auto simp: reflectUpdate_def resolves_def falsy_def Let_def)

lemma fold_reflectUpdate:
  "fold (reflectUpdate names) us D k =
     (case lastValueFor names us k of None \<Rightarrow> D k | Some v \<Rightarrow> Some v)"
proof (induction us arbitrary: D)
  case Nil
  show ?case by simp
next
  case (Cons u us)
  have "fold (reflectUpdate names) (u # us) D k = fold (reflectUpdate names) us (reflectUpdate names u D) k"
    by simp
  also have "\<dots> = (case lastValueFor names us k of None \<Rightarrow> reflectUpdate names u D k | Some v \<Rightarrow> Some v)"
    by (rule Cons.IH)
  also have "\<dots> = (case lastValueFor names (u # us) k of None \<Rightarrow> D k | Some v \<Rightarrow> Some v)"
    unfolding reflectUpdate_apply by (simp split: option.splits)
  finally show ?case .
qed

subsection \<open>Update resolution and the frame of a batch\<close>

lemma lastValueFor_append:
  "lastValueFor names (xs @ ys) k =
     (case lastValueFor names ys k of Some v \<Rightarrow> Some v | None \<Rightarrow> lastValueFor names xs k)"
  by (induction xs) (simp_all split: option.splits)

lemma lastValueFor_None_iff:
  "lastValueFor names us k = None \<longleftrightarrow> (\<forall>u \<in> set us. \<not> resolves names u k)"
  by (induction us) (auto split: option.splits)

lemma lastValueFor_last:
  assumes "resolves names u k" and "\<forall>w \<in> set after. \<not> resolves names w k"
  shows "lastValueFor names (before @ u # after) k = Some (value_or_empty u)"
proof -
  have "lastValueFor names after k = None"
    using assms(2) by (simp add: lastValueFor_None_iff)
  then have "lastValueFor names (u # after) k = Some (value_or_empty u)"
    using assms(1) by simp
  then show ?thesis by (simp add: lastValueFor_append)
qed

lemma resolveKey_name:
  "u_name u = Some n \<Longrightarrow> trim n \<noteq> [] \<Longrightarrow> resolveKey names u = Some (trim n)"
  by (simp add: resolveKey_def falsy_def)

lemma resolveKey_order:
  assumes "u_name u = None \<or> (\<exists>n. u_name u = Some n \<and> trim n = [])"
    and "u_order u = Some order" and "1 \<le> order" and "order \<le> int (length names)"
  shows "resolveKey names u = Some (names ! nat (order - 1))"
  using assms by (auto simp: resolveKey_def falsy_def Let_def)

lemma resolveKey_unresolved:
  assumes "u_name u = None \<or> (\<exists>n. u_name u = Some n \<and> trim n = [])"
    and "u_order u = None \<or> (\<exists>order. u_order u = Some order \<and> (order < 1 \<or> int (length names) < order))"
  shows "falsy (resolveKey names u)"
  using assms by (auto simp: resolveKey_def falsy_def Let_def)

text \<open>
  Claim C10. No keys are ever added to the placeholder store by a batch. The code adds
  one: for the store with the one key \<open>a\<close> and the batch of the one record
  \<open>{name: "constructor", value: "x"}\<close>, \<^verbatim>\<open>next["constructor"]\<close> is the inherited function, so
  the guard \<^verbatim>\<open>!next[key]\<close> does not return and the store gets the new key \<open>constructor\<close>
  with an entry that has a value and neither name nor description.
\<close>

theorem batch_adds_key:
  "[''a'' \<mapsto> \<lparr>name = Some ''a'', description = Some ''first'', val = []\<rparr>] ''constructor'' = None
   \<and> applyStructuredUpdates [''a'']
        [''a'' \<mapsto> \<lparr>name = Some ''a'', description = Some ''first'', val = []\<rparr>]
        [\<lparr>u_name = Some ''constructor'', u_order = None, u_value = Some ''x''\<rparr>] ''constructor''
      = Some \<lparr>name = None, description = None, val = ''x''\<rparr>"
proof -
  have t: "trim ''constructor'' = ''constructor''"
    by (simp add: trim_def is_ws_def)
  have r: "resolves [''a''] \<lparr>u_name = Some ''constructor'', u_order = None, u_value = Some ''x''\<rparr> ''constructor''"
    by (simp add: resolves_def resolveKey_def falsy_def t)
  show ?thesis
    using r by (simp add: applyStructuredUpdates_single inheritedFunctions_def value_or_empty_def)
qed

text \<open>
  Claim C2. A record whose key is not a key of the placeholder store is skipped as a
  no-op. The code does not skip it when the key names a member that objects inherit:
  the record \<open>{name: " toString ", value: "x"}\<close> has the key \<open>toString\<close>, which is not a
  key of the store, and the batch that holds it returns a store that differs from the
  one the batch without it returns.
\<close>

theorem inherited_key_not_skipped:
  "resolveKey [''a''] \<lparr>u_name = Some '' toString '', u_order = None, u_value = Some ''x''\<rparr> = Some ''toString''
   \<and> [''a'' \<mapsto> \<lparr>name = Some ''a'', description = Some ''first'', val = []\<rparr>] ''toString'' = None
   \<and> applyStructuredUpdates [''a'']
        [''a'' \<mapsto> \<lparr>name = Some ''a'', description = Some ''first'', val = []\<rparr>]
        [\<lparr>u_name = Some '' toString '', u_order = None, u_value = Some ''x''\<rparr>] ''toString''
      = Some \<lparr>name = None, description = None, val = ''x''\<rparr>
   \<and> applyStructuredUpdates [''a'']
        [''a'' \<mapsto> \<lparr>name = Some ''a'', description = Some ''first'', val = []\<rparr>]
        [] ''toString''
      = None"
proof -
  have t: "trim '' toString '' = ''toString''"
    by (simp add: trim_def is_ws_def)
  have k: "resolveKey [''a''] \<lparr>u_name = Some '' toString '', u_order = None, u_value = Some ''x''\<rparr> = Some ''toString''"
    by (simp add: resolveKey_def falsy_def t)
  then have r: "resolves [''a''] \<lparr>u_name = Some '' toString '', u_order = None, u_value = Some ''x''\<rparr> ''toString''"
    by (simp add: resolves_def)
  have e: "applyStructuredUpdates [''a'']
        [''a'' \<mapsto> \<lparr>name = Some ''a'', description = Some ''first'', val = []\<rparr>] [] ''toString'' = None"
    by (simp add: applyStructuredUpdates_def)
  show ?thesis
    using k r e by (simp add: applyStructuredUpdates_single inheritedFunctions_def value_or_empty_def)
qed

subsection \<open>Decimal names\<close>

lemma digit_val_digit: "d < 10 \<Longrightarrow> digit_val (digit d) = d"
proof -
  assume "d < 10"
  then consider "d = 0" | "d = 1" | "d = 2" | "d = 3" | "d = 4" | "d = 5" | "d = 6" | "d = 7" | "d = 8" | "d = 9"
    by atomize_elim presburger
  then show ?thesis
    by cases (simp_all add: digit_def digit_val_def)
qed

lemma digit_in: "d < 10 \<Longrightarrow> digit d \<in> set ''0123456789''"
  unfolding digit_def by (rule nth_mem) simp

lemma num_of_snoc: "num_of (s @ [c]) = 10 * num_of s + digit_val c"
  by (simp add: num_of_def)

lemma num_of_String_num: "num_of (String_num n) = n"
proof (induction n rule: String_num.induct)
  case (1 n)
  show ?case
  proof (cases "n < 10")
    case True
    then show ?thesis
      by (subst String_num.simps) (simp add: num_of_def digit_val_digit)
  next
    case False
    then have "num_of (String_num (n div 10)) = n div 10" by (rule "1.IH")
    with False show ?thesis
      by (subst String_num.simps) (simp add: num_of_snoc digit_val_digit)
  qed
qed

lemma set_String_num: "set (String_num n) \<subseteq> set ''0123456789''"
proof (induction n rule: String_num.induct)
  case (1 n)
  show ?case
  proof (cases "n < 10")
    case True
    then show ?thesis
      using digit_in[of n] by (subst String_num.simps) simp
  next
    case False
    then have "set (String_num (n div 10)) \<subseteq> set ''0123456789''" by (rule "1.IH")
    moreover have "digit (n mod 10) \<in> set ''0123456789''" by (rule digit_in) simp
    ultimately show ?thesis using False
      by (subst String_num.simps) simp
  qed
qed

lemma length_String_num: "n < 1000 \<Longrightarrow> length (String_num n) \<le> 3"
proof -
  assume n: "n < 1000"
  have one: "\<And>m. m < 10 \<Longrightarrow> length (String_num m) = 1"
    by (subst String_num.simps) simp
  have two: "\<And>m. m < 100 \<Longrightarrow> length (String_num m) \<le> 2"
  proof -
    fix m :: nat assume "m < 100"
    then show "length (String_num m) \<le> 2"
      by (subst String_num.simps) (simp add: one)
  qed
  show ?thesis
  proof (cases "n < 10")
    case True then show ?thesis by (simp add: one)
  next
    case False
    have "n div 10 < 100" using n by simp
    then have "length (String_num (n div 10)) \<le> 2" by (rule two)
    with False show ?thesis by (subst String_num.simps) simp
  qed
qed

lemma num_of_zeros: "num_of (replicate k (CHR ''0'') @ s) = num_of s"
proof -
  have z: "foldl (\<lambda>a c. 10 * a + digit_val c) 0 (replicate k (CHR ''0'')) = 0"
    by (induction k) (simp_all add: digit_val_def)
  show ?thesis by (simp add: num_of_def z)
qed

lemma num_of_padStart: "num_of (padStart 3 (CHR ''0'') (String_num n)) = n"
  by (simp add: padStart_def num_of_zeros num_of_String_num)

lemma length_padStart: "n < 1000 \<Longrightarrow> length (padStart 3 (CHR ''0'') (String_num n)) = 3"
  using length_String_num[of n] by (simp add: padStart_def)

lemma set_padStart: "set (padStart 3 (CHR ''0'') (String_num n)) \<subseteq> set ''0123456789''"
proof -
  have "set (replicate (3 - length (String_num n)) (CHR ''0'')) \<subseteq> set ''0123456789''"
    by (auto simp: set_replicate_conv_if)
  with set_String_num[of n] show ?thesis
    unfolding padStart_def set_append by blast
qed

lemma String_num_2: "String_num 2 = ''2''"
  by (subst String_num.simps) (simp add: digit_def)

lemma fallback_002:
  "padStart 3 (CHR ''0'') (String_num 2) = ''002''"
  "padStart 3 (CHR ''0'') (String_num (Suc (Suc 0))) = ''002''"
proof -
  show a: "padStart 3 (CHR ''0'') (String_num 2) = ''002''"
    by (simp add: padStart_def String_num_2) (simp add: numeral_2_eq_2)
  then show "padStart 3 (CHR ''0'') (String_num (Suc (Suc 0))) = ''002''"
    by (simp add: numeral_2_eq_2)
qed

subsection \<open>Occurrence binding\<close>

lemma parse_run_Text: "parse_run r = Text x \<Longrightarrow> x = r"
  by (auto simp: parse_run_def split: list.splits if_splits)

lemma parse_run_wrap:
  "delimiter_free n \<Longrightarrow> parse_run (DELIMS_start @ n @ DELIMS_end) = Tag n"
  by (simp add: parse_run_def DELIMS_start_def DELIMS_end_def)

lemma wrap_inject:
  "DELIMS_start @ a @ DELIMS_end = DELIMS_start @ b @ DELIMS_end \<longleftrightarrow> a = b"
  by simp

lemma get_next_boundName:
  "get_next names t idx = (Some (DELIMS_start @ boundName names idx @ DELIMS_end), Suc idx)"
  by (simp add: get_next_def boundName_def Let_def)

lemma length_render: "length (render describe getter ng doc s) = length doc"
  by (induction doc arbitrary: s) (auto split: part.splits prod.splits option.splits)

lemma occurrence_0: "occurrence doc 0 = 0"
  by (simp add: occurrence_def)

lemma occurrence_Cons_Suc:
  "occurrence (r # rs) (Suc j) = (if is_token r then Suc (occurrence rs j) else occurrence rs j)"
  by (simp add: occurrence_def)

lemma render_rename_nth:
  "j < length doc \<Longrightarrow>
   render describe (get_next names) ng doc idx ! j =
     (if is_token (doc ! j) then DELIMS_start @ boundName names (idx + occurrence doc j) @ DELIMS_end
      else doc ! j)"
proof (induction doc arbitrary: idx j)
  case Nil
  then show ?case by simp
next
  case (Cons r rs)
  show ?case
  proof (cases j)
    case 0
    then show ?thesis
      by (auto simp: is_token_def occurrence_0 get_next_boundName dest: parse_run_Text split: part.splits)
  next
    case (Suc i)
    with Cons.prems have i: "i < length rs" by simp
    show ?thesis
    proof (cases "parse_run r")
      case (Text x)
      then show ?thesis
        using Suc Cons.IH[OF i, of idx] by (simp add: is_token_def occurrence_Cons_Suc)
    next
      case (Tag t)
      then show ?thesis
        using Suc Cons.IH[OF i, of "Suc idx"]
        by (simp add: is_token_def occurrence_Cons_Suc get_next_boundName)
    qed
  qed
qed

lemma rename_nth:
  "j < length doc \<Longrightarrow>
   renameDocxByOccurrence describe doc names ! j =
     (if is_token (doc ! j) then DELIMS_start @ boundName names (occurrence doc j) @ DELIMS_end
      else doc ! j)"
  by (simp add: renameDocxByOccurrence_def render_rename_nth)

lemma length_rename: "length (renameDocxByOccurrence describe doc names) = length doc"
  by (simp add: renameDocxByOccurrence_def length_render)

text \<open>
  Claim C3. The rewritten document has the runs of the original one; a run that is not a
  token is unchanged; the token with occurrence index \<open>i\<close> (from 0) becomes the \<open>i\<close>-th
  canonical name between \<open>[\<close> and \<open>]\<close>, and beyond the end of the name list it becomes
  \<open>placeholder_\<close> followed by \<open>i + 1\<close> padded with zeros to three digits: the suffix is
  a digit string whose value is the position, three characters long below 1000. So every
  token gets an identifier.
\<close>

theorem occurrence_binding:
  "length (renameDocxByOccurrence describe doc names) = length doc
   \<and> (\<forall>j < length doc.
        (\<not> is_token (doc ! j) \<longrightarrow> renameDocxByOccurrence describe doc names ! j = doc ! j)
      \<and> (is_token (doc ! j) \<and> occurrence doc j < length names \<longrightarrow>
           renameDocxByOccurrence describe doc names ! j = ''['' @ names ! occurrence doc j @ '']'')
      \<and> (is_token (doc ! j) \<and> length names \<le> occurrence doc j \<longrightarrow>
           renameDocxByOccurrence describe doc names ! j
             = ''['' @ ''placeholder_'' @ padStart 3 (CHR ''0'') (String_num (occurrence doc j + 1)) @ '']''))
   \<and> (\<forall>n. num_of (padStart 3 (CHR ''0'') (String_num n)) = n
          \<and> set (padStart 3 (CHR ''0'') (String_num n)) \<subseteq> set ''0123456789''
          \<and> (n < 1000 \<longrightarrow> length (padStart 3 (CHR ''0'') (String_num n)) = 3))"
  by (simp add: length_rename rename_nth boundName_def DELIMS_start_def DELIMS_end_def
      num_of_padStart set_padStart length_padStart del: set_simps)

theorem occurrence_binding_witness:
  "renameDocxByOccurrence describe_tag [''Dear '', ''[X]'', '' and '', ''[X]''] [''full_name'']
     = [''Dear '', ''[full_name]'', '' and '', ''[placeholder_002]'']"
proof -
  let ?doc = "[''Dear '', ''[X]'', '' and '', ''[X]'']"
  let ?out = "renameDocxByOccurrence describe_tag ?doc [''full_name'']"
  have tok: "\<not> is_token ''Dear ''" "is_token ''[X]''" "\<not> is_token '' and ''"
    by (simp_all add: is_token_def parse_run_def DELIMS_start_def DELIMS_end_def delimiter_free_def)
  have occ: "occurrence ?doc 1 = 0" "occurrence ?doc 3 = 1"
    using tok by (simp_all add: occurrence_def)
  have len: "length ?out = 4"
    using occurrence_binding[of describe_tag ?doc "[''full_name'']"] by simp
  have "(0::nat) < length ?doc" "(1::nat) < length ?doc" "(2::nat) < length ?doc" "(3::nat) < length ?doc"
    by simp_all
  with occurrence_binding[of describe_tag ?doc "[''full_name'']"] tok occ
  have "?out ! 0 = ''Dear ''" "?out ! 1 = ''[full_name]''" "?out ! 2 = '' and ''"
    "?out ! 3 = ''['' @ ''placeholder_'' @ padStart 3 (CHR ''0'') (String_num (1 + 1)) @ '']''"
    by simp_all
  then have nths: "?out ! 0 = ''Dear ''" "?out ! 1 = ''[full_name]''" "?out ! 2 = '' and ''"
    "?out ! 3 = ''[placeholder_002]''"
    by (simp_all add: fallback_002)
  show ?thesis
  proof (rule nth_equalityI)
    show "length ?out = length [''Dear '', ''[full_name]'', '' and '', ''[placeholder_002]'']"
      using len by simp
    fix i assume "i < length ?out"
    then have "i = 0 \<or> i = 1 \<or> i = 2 \<or> i = 3" using len by presburger
    then show "?out ! i = [''Dear '', ''[full_name]'', '' and '', ''[placeholder_002]''] ! i"
      using nths by auto
  qed
qed

subsection \<open>Binding is by position\<close>

lemma render_same_shape:
  "list_all2 same_shape doc1 doc2 \<Longrightarrow>
   render describe (get_next names) ng doc1 idx = render describe (get_next names) ng doc2 idx"
proof (induction doc1 doc2 arbitrary: idx rule: list_all2_induct)
  case Nil
  show ?case by simp
next
  case (Cons r1 rs1 r2 rs2)
  show ?case
  proof (cases "is_token r1")
    case True
    with Cons.hyps(1) have "is_token r2" by (simp add: same_shape_def)
    with True obtain t1 t2 where "parse_run r1 = Tag t1" "parse_run r2 = Tag t2"
      by (auto simp: is_token_def split: part.splits)
    then show ?thesis
      using Cons.IH[of "Suc idx"] by (simp add: get_next_boundName)
  next
    case False
    with Cons.hyps(1) have eq: "r1 = r2" by (simp add: same_shape_def)
    from False obtain x where "parse_run r1 = Text x"
      by (auto simp: is_token_def split: part.splits)
    with eq show ?thesis by (simp add: Cons.IH)
  qed
qed

lemma occurrence_mono: "i \<le> j \<Longrightarrow> occurrence doc i \<le> occurrence doc j"
proof -
  assume "i \<le> j"
  then have "take i doc = take i (take j doc)" by (simp add: min_def)
  then have "filter is_token (take j doc) = filter is_token (take i doc) @ filter is_token (drop i (take j doc))"
    by (metis append_take_drop_id filter_append)
  then show ?thesis by (simp add: occurrence_def)
qed

lemma occurrence_Suc:
  "i < length doc \<Longrightarrow> is_token (doc ! i) \<Longrightarrow> occurrence doc (Suc i) = Suc (occurrence doc i)"
  by (simp add: occurrence_def take_Suc_conv_app_nth)

lemma occurrence_less:
  assumes "i < j" "i < length doc" "is_token (doc ! i)"
  shows "occurrence doc i < occurrence doc j"
proof -
  have "Suc (occurrence doc i) = occurrence doc (Suc i)"
    using assms(2,3) by (simp add: occurrence_Suc)
  also have "\<dots> \<le> occurrence doc j"
    using assms(1) by (intro occurrence_mono) simp
  finally show ?thesis by simp
qed

lemma boundName_distinct_inside:
  "distinct names \<Longrightarrow> a < b \<Longrightarrow> b < length names \<Longrightarrow> boundName names a \<noteq> boundName names b"
  by (simp add: boundName_def nth_eq_iff_index_eq)

lemma boundName_distinct_beyond:
  assumes "length names \<le> a" "a < b"
  shows "boundName names a \<noteq> boundName names b"
proof
  assume "boundName names a = boundName names b"
  with assms have "padStart 3 (CHR ''0'') (String_num (a + 1)) = padStart 3 (CHR ''0'') (String_num (b + 1))"
    by (simp add: boundName_def)
  then have "num_of (padStart 3 (CHR ''0'') (String_num (a + 1))) = num_of (padStart 3 (CHR ''0'') (String_num (b + 1)))"
    by simp
  then have "a + 1 = b + 1" by (simp only: num_of_padStart)
  with assms(2) show False by simp
qed

text \<open>
  Claim C5, amended. Two documents that differ only in the raw text of tokens at the same
  positions are rewritten to the same document, for the same name list. Two tokens at
  different positions, whatever their raw text, get the names of their own occurrence
  indices, and these indices differ; the two names are different when the names of the
  list are distinct and both indices lie within the list, and when both indices lie
  beyond the list (fallback names).
\<close>

theorem positional_binding:
  "(list_all2 same_shape doc1 doc2 \<longrightarrow>
      renameDocxByOccurrence describe doc1 names = renameDocxByOccurrence describe doc2 names)
   \<and> (\<forall>i j. i < j \<and> j < length doc \<and> is_token (doc ! i) \<and> is_token (doc ! j) \<longrightarrow>
        renameDocxByOccurrence describe doc names ! i
            = ''['' @ boundName names (occurrence doc i) @ '']''
        \<and> renameDocxByOccurrence describe doc names ! j
            = ''['' @ boundName names (occurrence doc j) @ '']''
        \<and> occurrence doc i < occurrence doc j
        \<and> (distinct names \<and> occurrence doc j < length names \<longrightarrow>
             renameDocxByOccurrence describe doc names ! i \<noteq> renameDocxByOccurrence describe doc names ! j)
        \<and> (length names \<le> occurrence doc i \<longrightarrow>
             renameDocxByOccurrence describe doc names ! i \<noteq> renameDocxByOccurrence describe doc names ! j))"
proof (intro conjI allI impI)
  assume "list_all2 same_shape doc1 doc2"
  then show "renameDocxByOccurrence describe doc1 names = renameDocxByOccurrence describe doc2 names"
    by (simp add: renameDocxByOccurrence_def render_same_shape)
next
  fix i j
  assume h: "i < j \<and> j < length doc \<and> is_token (doc ! i) \<and> is_token (doc ! j)"
  then have i: "i < length doc" by simp
  show ri: "renameDocxByOccurrence describe doc names ! i = ''['' @ boundName names (occurrence doc i) @ '']''"
    using h i by (simp add: rename_nth DELIMS_start_def DELIMS_end_def)
  show rj: "renameDocxByOccurrence describe doc names ! j = ''['' @ boundName names (occurrence doc j) @ '']''"
    using h by (simp add: rename_nth DELIMS_start_def DELIMS_end_def)
  show lt: "occurrence doc i < occurrence doc j"
    using h i by (intro occurrence_less) simp_all
  {
    assume "distinct names \<and> occurrence doc j < length names"
    then have "boundName names (occurrence doc i) \<noteq> boundName names (occurrence doc j)"
      using lt by (intro boundName_distinct_inside) simp_all
    then show "renameDocxByOccurrence describe doc names ! i \<noteq> renameDocxByOccurrence describe doc names ! j"
      by (simp add: ri rj)
  }
  {
    assume "length names \<le> occurrence doc i"
    then have "boundName names (occurrence doc i) \<noteq> boundName names (occurrence doc j)"
      using lt by (intro boundName_distinct_beyond) simp_all
    then show "renameDocxByOccurrence describe doc names ! i \<noteq> renameDocxByOccurrence describe doc names ! j"
      by (simp add: ri rj)
  }
qed

lemma is_token_X: "is_token ''[X]''" "is_token ''[Y]''"
  by (simp_all add: is_token_def parse_run_def DELIMS_start_def DELIMS_end_def delimiter_free_def)

text \<open>With a name list that repeats a name, two tokens of the same raw text at different
  positions get the same name.\<close>

theorem positional_binding_counterexample:
  "is_token ''[X]''
   \<and> renameDocxByOccurrence describe_tag [''[X]'', ''[X]''] [''a'', ''a''] ! 0
     = renameDocxByOccurrence describe_tag [''[X]'', ''[X]''] [''a'', ''a''] ! 1"
  by (simp add: rename_nth is_token_X occurrence_def boundName_def)

theorem positional_binding_witness:
  "renameDocxByOccurrence describe_tag [''[X]'', ''.''] [''full_name'', ''email'']
     = renameDocxByOccurrence describe_tag [''[Y]'', ''.''] [''full_name'', ''email'']
   \<and> renameDocxByOccurrence describe_tag [''[X]'', ''[X]''] [''full_name'', ''email''] ! 0
     \<noteq> renameDocxByOccurrence describe_tag [''[X]'', ''[X]''] [''full_name'', ''email''] ! 1
   \<and> renameDocxByOccurrence describe_tag [''[X]'', ''[X]''] [] ! 0
     \<noteq> renameDocxByOccurrence describe_tag [''[X]'', ''[X]''] [] ! 1"
proof -
  have dot: "\<not> is_token ''.''"
    by (simp add: is_token_def parse_run_def DELIMS_start_def)
  have shape: "list_all2 same_shape [''[X]'', ''.''] [''[Y]'', ''.'']"
    using dot by (simp add: same_shape_def is_token_X)
  have pos: "(0::nat) < 1 \<and> 1 < length [''[X]'', ''[X]''] \<and> is_token ([''[X]'', ''[X]''] ! 0)
      \<and> is_token ([''[X]'', ''[X]''] ! 1)"
    by (simp add: is_token_X)
  have inside: "distinct [''full_name'', ''email''] \<and> occurrence [''[X]'', ''[X]''] 1 < length [''full_name'', ''email'']"
    by (simp add: occurrence_def is_token_X)
  have beyond: "length ([]::string list) \<le> occurrence [''[X]'', ''[X]''] 0"
    by simp
  have 1: "renameDocxByOccurrence describe_tag [''[X]'', ''.''] [''full_name'', ''email'']
     = renameDocxByOccurrence describe_tag [''[Y]'', ''.''] [''full_name'', ''email'']"
    using positional_binding[of "[''[X]'', ''.'']" "[''[Y]'', ''.'']" describe_tag "[''full_name'', ''email'']"] shape
    by blast
  have 2: "renameDocxByOccurrence describe_tag [''[X]'', ''[X]''] [''full_name'', ''email''] ! 0
     \<noteq> renameDocxByOccurrence describe_tag [''[X]'', ''[X]''] [''full_name'', ''email''] ! 1"
    using positional_binding[of _ _ describe_tag "[''full_name'', ''email'']" "[''[X]'', ''[X]'']"] pos inside
    by blast
  have 3: "renameDocxByOccurrence describe_tag [''[X]'', ''[X]''] [] ! 0
     \<noteq> renameDocxByOccurrence describe_tag [''[X]'', ''[X]''] [] ! 1"
    using positional_binding[of _ _ describe_tag "[]" "[''[X]'', ''[X]'']"] pos beyond
    by blast
  show ?thesis using 1 2 3 by simp
qed

subsection \<open>The name universe after an upload\<close>












subsection \<open>A reachable example state\<close>

lemma example_upload_fields:
  assumes "delimiter_free nm"
  shows "placeholders (example_upload nm) = [nm \<mapsto> \<lparr>name = Some nm, description = Some [], val = []\<rparr>]"
    and "draftValues (example_upload nm) = [nm \<mapsto> []]"
    and "orderedNames (example_upload nm) = [nm]"
    and "documentId (example_upload nm) = Some ''d1''"
    and "templateBuffer (example_upload nm) = Some [DELIMS_start @ nm @ DELIMS_end]"
    and "fileName (example_upload nm) = Some ''t.docx''"
proof -
  have r: "renameDocxByOccurrence describe_tag [''[X]''] [nm] = [DELIMS_start @ nm @ DELIMS_end]"
    using is_token_X(1)
    by (simp add: renameDocxByOccurrence_def get_next_boundName boundName_def is_token_def split: part.splits)
  have t: "getAllTags [DELIMS_start @ nm @ DELIMS_end] = [nm]"
    using assms by (simp add: getAllTags_def parse_run_wrap)
  have e: "extracted_of (descByName [\<lparr>api_order = 1, api_name = nm, api_description = []\<rparr>]) [nm]
      = [nm \<mapsto> \<lparr>name = Some nm, description = Some [], val = []\<rparr>]"
    by (simp add: extracted_of_def descByName_def)
  have s: "seedDrafts [nm \<mapsto> \<lparr>name = Some nm, description = Some [], val = []\<rparr>] = [nm \<mapsto> []]"
    by (auto simp: seedDrafts_def)
  show "placeholders (example_upload nm) = [nm \<mapsto> \<lparr>name = Some nm, description = Some [], val = []\<rparr>]"
    by (simp add: example_upload_def handleFileUpload_def uploadAnswered_def initial_def Let_def r t e)
  show "draftValues (example_upload nm) = [nm \<mapsto> []]"
    by (simp add: example_upload_def handleFileUpload_def uploadAnswered_def initial_def Let_def r t e s)
  show "orderedNames (example_upload nm) = [nm]"
    by (simp add: example_upload_def handleFileUpload_def uploadAnswered_def initial_def Let_def)
  show "documentId (example_upload nm) = Some ''d1''"
    by (simp add: example_upload_def handleFileUpload_def uploadAnswered_def initial_def Let_def)
  show "templateBuffer (example_upload nm) = Some [DELIMS_start @ nm @ DELIMS_end]"
    by (simp add: example_upload_def handleFileUpload_def uploadAnswered_def initial_def Let_def r)
  show "fileName (example_upload nm) = Some ''t.docx''"
    by (simp add: example_upload_def handleFileUpload_def uploadAnswered_def initial_def Let_def)
qed

subsection \<open>Preview and export\<close>

lemma nullGetter_describe_tag: "nullGetter (describe_tag t) = DELIMS_start @ t @ DELIMS_end"
  by (simp add: nullGetter_def describe_tag_def)

lemma substitution_filled:
  "phs t = Some ph \<Longrightarrow> trim (val ph) \<noteq> [] \<Longrightarrow>
   substitution describe (previewData phs) t = val ph \<and> substitution describe (downloadData phs) t = val ph"
  by (simp add: substitution_def scopeGet_def previewData_def downloadData_def)

lemma substitution_same:
  "describe t = describe_tag t \<Longrightarrow>
   substitution describe (previewData phs) t = substitution describe (downloadData phs) t"
  by (simp add: substitution_def scopeGet_def previewData_def downloadData_def nullGetter_describe_tag
      split: option.splits)

lemma render_substitution:
  "render describe (scopeGet scope) nullGetter buf ()
     = map (\<lambda>r. case parse_run r of Text x \<Rightarrow> x | Tag t \<Rightarrow> substitution describe scope t) buf"
  by (induction buf) (simp_all add: substitution_def scopeGet_def split: part.splits)

lemma render_same:
  assumes "\<forall>t \<in> set (tags_of buf). describe t = describe_tag t"
  shows "render describe (scopeGet (previewData phs)) nullGetter buf ()
       = render describe (scopeGet (downloadData phs)) nullGetter buf ()"
  using assms
proof (induction buf)
  case Nil
  show ?case by simp
next
  case (Cons r rs)
  show ?case
  proof (cases "parse_run r")
    case (Text x)
    with Cons show ?thesis by simp
  next
    case (Tag t)
    with Cons.prems have "describe t = describe_tag t" by simp
    then have "substitution describe (previewData phs) t = substitution describe (downloadData phs) t"
      by (rule substitution_same)
    moreover have "\<forall>t \<in> set (tags_of rs). describe t = describe_tag t"
      using Cons.prems Tag by simp
    ultimately show ?thesis
      using Tag Cons.IH by (simp add: substitution_def scopeGet_def)
  qed
qed

lemma trim_examples: "trim ''Ana'' = ''Ana''" "trim '' '' = []" "trim [] = []"
  by (simp_all add: trim_def is_ws_def)

lemma nullGetter_describe_value: "nullGetter (describe_value t) = DELIMS_start @ DELIMS_end"
  by (simp add: nullGetter_def describe_value_def)

text \<open>With the part object of the library, which has no \<^verbatim>\<open>tag\<close> property, the export writes
  the empty tag for every name it left out of its data, while the preview writes the
  name between the delimiters.\<close>

lemma export_without_tag_field:
  assumes "phs t = Some ph" and "trim (val ph) = []" and "describe t = describe_value t"
  shows "substitution describe (downloadData phs) t = ''[]''"
    and "substitution describe (previewData phs) t = ''['' @ t @ '']''"
  using assms
  by (simp_all add: substitution_def scopeGet_def downloadData_def previewData_def
      nullGetter_describe_value DELIMS_start_def DELIMS_end_def)

text \<open>
  Claim C6. The preview path and the download path render identically. They do not: after
  the upload of a document with one token, named \<open>email\<close> by the service and left unfilled,
  \<^verbatim>\<open>generateFilledArrayBuffer\<close> yields the document \<open>[email]\<close>, and \<^verbatim>\<open>handleDownload\<close> saves
  the document \<open>[]\<close>: its \<^verbatim>\<open>nullGetter\<close> reads \<^verbatim>\<open>part.tag\<close>, which the part object of the
  library does not have.
\<close>

theorem export_differs_from_preview:
  "placeholders (example_upload ''email'') ''email''
      = Some \<lparr>name = Some ''email'', description = Some [], val = []\<rparr>
   \<and> generateFilledArrayBuffer describe_value (example_upload ''email'') None
      = (Some [''[email]''], [])
   \<and> handleDownload describe_value (example_upload ''email'') None None
      = Inr (Some (''t-filled.docx'', [''[]'']),
             [ToastSuccess ''Document downloaded'' ''Your completed document has been downloaded''])"
proof -
  have df: "delimiter_free ''email''"
    by (simp add: delimiter_free_def)
  note f = example_upload_fields[OF df]
  have tb: "templateBuffer (example_upload ''email'') = Some [''[email]'']"
    using f(5) by (simp add: DELIMS_start_def DELIMS_end_def)
  have p: "parse_run ''[email]'' = Tag ''email''"
    using parse_run_wrap[OF df] by (simp add: DELIMS_start_def DELIMS_end_def)
  have n: "filledName (Some ''t.docx'') = ''t-filled.docx''"
    by (simp add: filledName_def lower_ascii_def)
  have 1: "placeholders (example_upload ''email'') ''email''
      = Some \<lparr>name = Some ''email'', description = Some [], val = []\<rparr>"
    by (simp add: f)
  have 2: "generateFilledArrayBuffer describe_value (example_upload ''email'') None
      = (Some [''[email]''], [])"
    by (simp add: generateFilledArrayBuffer_def tb f(1) p scopeGet_def previewData_def trim_examples
        DELIMS_start_def DELIMS_end_def)
  have 3: "handleDownload describe_value (example_upload ''email'') None None
      = Inr (Some (''t-filled.docx'', [''[]'']),
             [ToastSuccess ''Document downloaded'' ''Your completed document has been downloaded''])"
    by (simp add: handleDownload_def tb f(1) f(6) p n scopeGet_def downloadData_def trim_examples
        nullGetter_describe_value DELIMS_start_def DELIMS_end_def)
  show ?thesis using 1 2 3 by simp
qed

subsection \<open>Render failure\<close>

text \<open>
  Claim C8, amended. When the templating engine throws while the preview is materialized
  (preview container mounted, template present), the effect returns normally with one
  error toast carrying the message; the store and the draft map are unchanged; the
  preview container is left empty, since it is cleared before materialization starts.
\<close>

theorem render_failure:
  "previewRef st \<noteq> None \<and> templateBuffer st \<noteq> None \<longrightarrow>
     previewEffect describe st (Some e) painting
       = (st\<lparr>previewRef := Some Blank\<rparr>,
          [ToastError ''Preview error'' (message_or e ''Failed to generate preview'')])
   \<and> placeholders (fst (previewEffect describe st (Some e) painting)) = placeholders st
   \<and> draftValues (fst (previewEffect describe st (Some e) painting)) = draftValues st
   \<and> previewRef (fst (previewEffect describe st (Some e) painting)) = Some Blank"
  by (auto simp: previewEffect_def generateFilledArrayBuffer_def Let_def)

theorem render_failure_witness:
  "previewEffect describe_tag viewing (Some (ErrorObject ''Scope parser execution failed'')) Painted
     = (viewing\<lparr>previewRef := Some Blank\<rparr>, [ToastError ''Preview error'' ''Scope parser execution failed''])"
proof -
  have "previewRef viewing \<noteq> None \<and> templateBuffer viewing \<noteq> None"
    by (simp add: viewing_def initial_def)
  with render_failure[of viewing describe_tag "ErrorObject ''Scope parser execution failed''" Painted]
  show ?thesis by simp
qed

text \<open>The view rendered before is not there after a failed materialization.\<close>

theorem render_failure_counterexample:
  "previewRef viewing = Some (Shown [''Dear '', ''[a]''])
   \<and> previewRef (fst (previewEffect describe_tag viewing (Some (ErrorObject ''Scope parser execution failed'')) Painted))
       = Some Blank"
  by (simp add: previewEffect_def generateFilledArrayBuffer_def viewing_def initial_def)

subsection \<open>Apply\<close>

lemma resolveKey_named:
  "resolveKey names \<lparr>u_name = Some nm, u_order = None, u_value = v\<rparr> = Some (trim nm)"
  by (simp add: resolveKey_def falsy_def Let_def)

lemma resolves_named:
  "resolves names \<lparr>u_name = Some nm, u_order = None, u_value = v\<rparr> k \<longleftrightarrow> k = trim nm \<and> k \<noteq> []"
  by (auto simp: resolves_def resolveKey_named)





lemma placeholders_draftEffect: "placeholders (draftEffect st) = placeholders st"
  by (simp add: draftEffect_def)

lemma draftEffect_keeps:
  "draftValues st k = Some d \<Longrightarrow> draftValues (draftEffect st) k = Some d"
  by (auto simp: draftEffect_def reconcileDrafts_def isDirty_def split: option.splits)

lemma draftEffect_fills:
  "draftValues st k = None \<Longrightarrow> draftValues (draftEffect st) k = map_option val (placeholders st k)"
  by (auto simp: draftEffect_def reconcileDrafts_def split: option.splits)

lemma isDirty_draftEffect:
  "isDirty (draftEffect st) k \<longleftrightarrow> draftValues st k \<noteq> None \<and> isDirty st k"
proof (cases "draftValues st k")
  case None
  then show ?thesis
    using draftEffect_fills[of st k] by (simp add: isDirty_def placeholders_draftEffect split: option.splits)
next
  case (Some d)
  then show ?thesis
    using draftEffect_keeps[of st k d] by (simp add: isDirty_def placeholders_draftEffect)
qed

lemma clean_draftEffect: "\<not> isDirty st k \<Longrightarrow> \<not> isDirty (draftEffect st) k"
  by (simp add: isDirty_draftEffect)


subsection \<open>Apply on the example state\<close>

lemma trim_padded: "trim '' a '' = ''a''" "trim ''a'' = ''a''"
  by (simp_all add: trim_def is_ws_def)


lemma b_not_inherited: "''b'' \<notin> set inheritedFunctions"
  by (simp add: inheritedFunctions_def)

lemma delimiter_free_examples: "delimiter_free '' a ''" "delimiter_free ''a''" "delimiter_free []"
  by (simp_all add: delimiter_free_def)



subsection \<open>Applying a value twice\<close>










subsection \<open>Reconciliation\<close>

lemma placeholders_onChatResponse:
  "placeholders (onChatResponse st us) = applyStructuredUpdates (orderedNames st) (placeholders st) us"
  by (simp add: onChatResponse_def)

lemma draftValues_onChatResponse:
  "draftValues (onChatResponse st us) k =
     (case lastValueFor (orderedNames st) us k of None \<Rightarrow> draftValues st k | Some v \<Rightarrow> Some v)"
  by (simp add: onChatResponse_def fold_reflectUpdate)

lemma draftValues_agentPush_present:
  "draftValues (onChatResponse st us) k = Some d \<Longrightarrow> draftValues (agentPush st us) k = Some d"
  by (auto simp: agentPush_def draftEffect_keeps)

text \<open>
  Claim C1. An external agent update for a dirty name never overwrites that name's draft.
  The code overwrites it: after an upload with the one name \<open>a\<close>, the draft \<open>mine\<close> typed
  for \<open>a\<close> is dirty; the agent update \<open>{name: "a", value: "theirs"}\<close> makes the draft
  \<open>theirs\<close>, because \<^verbatim>\<open>onChatResponse\<close> writes every resolved record into the draft map
  without the dirty check that the reconciling effect makes. It does so without the
  store check of \<^verbatim>\<open>applyStructuredUpdates\<close> too: an update for the unknown name \<open>b\<close>
  leaves a draft for \<open>b\<close> that no committed value matches.
\<close>

theorem agent_push_overwrites_dirty_draft:
  "isDirty (onDraftChange (example_upload ''a'') ''a'' ''mine'') ''a''
   \<and> draftValues (onDraftChange (example_upload ''a'') ''a'' ''mine'') ''a'' = Some ''mine''
   \<and> draftValues (agentPush (onDraftChange (example_upload ''a'') ''a'' ''mine'')
        [\<lparr>u_name = Some ''a'', u_order = None, u_value = Some ''theirs''\<rparr>]) ''a'' = Some ''theirs''
   \<and> \<not> isDirty (example_upload ''a'') ''b''
   \<and> isDirty (agentPush (example_upload ''a'')
        [\<lparr>u_name = Some ''b'', u_order = None, u_value = Some ''theirs''\<rparr>]) ''b''"
proof -
  let ?up = "example_upload ''a''"
  let ?ub = "\<lparr>u_name = Some ''b'', u_order = None, u_value = Some ''theirs''\<rparr>"
  have tb: "trim ''b'' = ''b''" by (simp add: trim_def is_ws_def)
  have b0: "\<not> isDirty ?up ''b''"
    by (simp add: isDirty_def example_upload_fields delimiter_free_examples)
  have "draftValues (onChatResponse ?up [?ub]) ''b'' = Some ''theirs''"
    by (simp add: draftValues_onChatResponse resolves_named tb value_or_empty_def)
  then have "draftValues (agentPush ?up [?ub]) ''b'' = Some ''theirs''"
    by (rule draftValues_agentPush_present)
  moreover have "placeholders (agentPush ?up [?ub]) ''b'' = None"
    by (simp add: agentPush_def placeholders_draftEffect placeholders_onChatResponse
        applyStructuredUpdates_single example_upload_fields delimiter_free_examples resolves_named tb
        b_not_inherited)
  ultimately have b1: "isDirty (agentPush ?up [?ub]) ''b''"
    by (simp add: isDirty_def)
  let ?st = "onDraftChange (example_upload ''a'') ''a'' ''mine''"
  have "isDirty ?st ''a''"
    by (simp add: isDirty_def onDraftChange_def example_upload_fields delimiter_free_examples)
  moreover have "draftValues ?st ''a'' = Some ''mine''"
    by (simp add: onDraftChange_def)
  moreover have "draftValues (onChatResponse ?st [\<lparr>u_name = Some ''a'', u_order = None, u_value = Some ''theirs''\<rparr>]) ''a''
      = Some ''theirs''"
    by (simp add: draftValues_onChatResponse resolves_named trim_padded value_or_empty_def)
  ultimately show ?thesis
    using b0 b1 by (simp add: draftValues_agentPush_present)
qed

end
